theory Spec2Isabelle
  imports Main
begin

section \<open>Answer normalisation\<close>

text \<open>
  The controllers compare \<^verbatim>\<open>answer.toLowerCase().trim()\<close> with the stored answer.
  Strings are lists of \<^typ>\<open>char\<close>. \<open>toLowerCase\<close> maps the letters A to Z to a to z and
  keeps every other character; \<open>trim\<close> removes the white space and line terminators of
  the ASCII range (tab, line feed, vertical tab, form feed, carriage return, space) from
  both ends. Characters outside ASCII are passed through unchanged.
\<close>

definition upperLetters :: string where
  "upperLetters = ''ABCDEFGHIJKLMNOPQRSTUVWXYZ''"

definition lowerLetters :: string where
  "lowerLetters = ''abcdefghijklmnopqrstuvwxyz''"

definition toLowerChar :: "char \<Rightarrow> char" where
  "toLowerChar c = (case map_of (zip upperLetters lowerLetters) c of Some d \<Rightarrow> d | None \<Rightarrow> c)"

definition toLowerCase :: "string \<Rightarrow> string" where
  "toLowerCase s = map toLowerChar s"

definition isWhiteSpace :: "char \<Rightarrow> bool" where
  "isWhiteSpace c = (c \<in> set [CHR 0x09, CHR 0x0A, CHR 0x0B, CHR 0x0C, CHR 0x0D, CHR '' ''])"

definition trimStart :: "string \<Rightarrow> string" where
  "trimStart s = dropWhile isWhiteSpace s"

definition trimEnd :: "string \<Rightarrow> string" where
  "trimEnd s = rev (dropWhile isWhiteSpace (rev s))"

definition trim :: "string \<Rightarrow> string" where
  "trim s = trimEnd (trimStart s)"

section \<open>Documents and collections\<close>

type_synonym objectId = nat

datatype requestStatus = Pending | Approved | Declined

text \<open>The fields of \<^verbatim>\<open>models/Item.js\<close> that the controllers read.\<close>

record item =
  item_user :: objectId
  item_verificationQuestion :: string
  item_verificationAnswer :: string

text \<open>\<^verbatim>\<open>models/ChatRequest.js\<close>; \<open>null\<close> is \<open>None\<close>.\<close>

record chatRequest =
  cr_item :: objectId
  cr_requester :: objectId
  cr_owner :: objectId
  cr_verificationQuestion :: string
  cr_correctAnswer :: string
  cr_submittedAnswer :: "string option"
  cr_answerCorrect :: bool
  cr_status :: requestStatus
  cr_conversation :: "objectId option"

text \<open>
  Modelled from the spec: \<open>models/Conversation\<close> and \<open>models/Message\<close> are not among the
  sources. The spec gives the channel as a two-party, item-scoped conversation container and
  the message service as \<open>appendMessage(channelId, senderId, content)\<close>; the records hold the
  fields the controllers read and write, and creating one appends it without validation.
\<close>

record conversation =
  conv_participants :: "objectId list"
  conv_item :: "objectId option"
  conv_lastMessage :: "objectId option"

record message =
  msg_conversation :: objectId
  msg_sender :: objectId
  msg_content :: string

record notification =
  n_user :: "objectId option"
  n_type :: string

text \<open>
  The database. None of these controllers deletes a document, so the \<open>_id\<close> of a document
  is its position in its collection: \<open>findById\<close> is a bounds-checked lookup, \<open>create\<close>
  appends and returns the old length, \<open>save\<close> replaces the document at its position.
  The item store is only read.
\<close>

record db =
  items :: "item list"
  chatRequests :: "chatRequest list"
  conversations :: "conversation list"
  messages :: "message list"
  notifications :: "notification list"

definition findById :: "objectId \<Rightarrow> 'a list \<Rightarrow> 'a option" where
  "findById i xs = (if i < length xs then Some (xs ! i) else None)"

text \<open>\<open>findOne\<close>: the first document, in insertion order, that matches the query.\<close>

fun findOneFrom :: "('a \<Rightarrow> bool) \<Rightarrow> nat \<Rightarrow> 'a list \<Rightarrow> (objectId \<times> 'a) option" where
  "findOneFrom P n [] = None"
| "findOneFrom P n (x # xs) = (if P x then Some (n, x) else findOneFrom P (Suc n) xs)"

definition findOne :: "('a \<Rightarrow> bool) \<Rightarrow> 'a list \<Rightarrow> (objectId \<times> 'a) option" where
  "findOne P xs = findOneFrom P 0 xs"

datatype error =
    ItemNotFound
  | VerificationNotConfigured
  | SelfContact
  | ChatRequestNotFound
  | NotAuthorized
  | AnswerNotVerified
  | ConversationNotFound
  | VerificationNotApproved
  | SelfConversation
  | ServerError

text \<open>
  Modelled from the spec: \<open>utils/notificationHelper\<close> is not among the sources; the spec
  gives it as \<open>emit(userId, eventType, payload)\<close>, fire-and-forget. It is modelled as
  appending the event to a log.
\<close>

definition createNotification :: "objectId option \<Rightarrow> string \<Rightarrow> db \<Rightarrow> db" where
  "createNotification u t s = s\<lparr>notifications := notifications s @ [\<lparr>n_user = u, n_type = t\<rparr>]\<rparr>"

section \<open>The ChatRequest schema\<close>

text \<open>
  \<open>correctAnswer\<close> and \<open>submittedAnswer\<close> are declared \<open>lowercase: true, trim: true\<close>: the
  schema lower-cases and trims what is assigned to them (in either order: the two commute).
  \<open>verificationQuestion\<close> and \<open>correctAnswer\<close> are \<open>required\<close> strings, which an empty
  string does not satisfy, so \<open>ChatRequest.create\<close> throws on one (the handler answers 500).
  The documents of the collection have passed this check when they were created, and no
  handler assigns these two fields afterwards, so \<open>save\<close> is modelled without it.
\<close>

definition schemaString :: "string \<Rightarrow> string" where
  "schemaString v = trim (toLowerCase v)"

definition ChatRequest_create :: "chatRequest \<Rightarrow> chatRequest list \<Rightarrow> (objectId \<times> chatRequest list) option" where
  "ChatRequest_create doc col =
     (let d = doc\<lparr>cr_correctAnswer := schemaString (cr_correctAnswer doc),
                  cr_submittedAnswer := map_option schemaString (cr_submittedAnswer doc)\<rparr>
      in if cr_verificationQuestion d = [] \<or> cr_correctAnswer d = [] then None
         else Some (length col, col @ [d]))"

section \<open>chatRequestController\<close>

text \<open>The query \<^verbatim>\<open>{item, requester, owner}\<close> of \<open>submitVerificationAnswer\<close>.\<close>

definition requestQuery :: "objectId \<Rightarrow> objectId \<Rightarrow> objectId \<Rightarrow> chatRequest \<Rightarrow> bool" where
  "requestQuery i u ow r = (cr_item r = i \<and> cr_requester r = u \<and> cr_owner r = ow)"

text \<open>
  A handler takes the authenticated user, the request's parameters and the database, and
  returns the response (an error, or the payload of the success response) with the
  database after the call. A missing \<open>answer\<close> in the body is \<open>None\<close>: calling
  \<open>toLowerCase\<close> on it throws, and the handler answers 500.
\<close>

definition submitVerificationAnswer ::
  "objectId \<Rightarrow> objectId \<Rightarrow> string option \<Rightarrow> db \<Rightarrow> (error + bool \<times> objectId) \<times> db" where
  "submitVerificationAnswer uid itemId answer s =
     (case findById itemId (items s) of
        None \<Rightarrow> (Inl ItemNotFound, s)
      | Some it \<Rightarrow>
          if item_verificationQuestion it = [] then (Inl VerificationNotConfigured, s)
          else
            let requesterId = uid; ownerId = item_user it in
            if requesterId = ownerId then (Inl SelfContact, s)
            else
              let found = findOne (requestQuery itemId requesterId ownerId) (chatRequests s)
              in (case answer of
                    None \<Rightarrow> (Inl ServerError, s)
                  | Some a \<Rightarrow>
                      let answerCorrect = (trim (toLowerCase a) = item_verificationAnswer it);
                          saved =
                            (case found of
                               None \<Rightarrow>
                                 ChatRequest_create
                                   \<lparr>cr_item = itemId, cr_requester = requesterId, cr_owner = ownerId,
                                    cr_verificationQuestion = item_verificationQuestion it,
                                    cr_correctAnswer = item_verificationAnswer it,
                                    cr_submittedAnswer = Some (trim (toLowerCase a)),
                                    cr_answerCorrect = answerCorrect,
                                    cr_status = (if answerCorrect then Pending else Pending),
                                    cr_conversation = None\<rparr>
                                   (chatRequests s)
                             | Some (cid, r) \<Rightarrow>
                                 Some (cid, (chatRequests s)
                                   [cid := r\<lparr>cr_submittedAnswer := Some (schemaString (trim (toLowerCase a))),
                                             cr_answerCorrect := answerCorrect\<rparr>]))
                      in (case saved of
                            None \<Rightarrow> (Inl ServerError, s)
                          | Some (cid, crs) \<Rightarrow>
                              let s1 = s\<lparr>chatRequests := crs\<rparr>;
                                  s2 = (if answerCorrect
                                        then createNotification (Some ownerId) ''chat_request'' s1
                                        else s1)
                              in (Inr (answerCorrect, cid), s2))))"

text \<open>
  The query \<^verbatim>\<open>{participants: {$all: [a, b]}, item: i}\<close>: both users are among the
  participants and the conversation's item is \<open>i\<close>.
\<close>

definition conversationFor :: "objectId \<Rightarrow> objectId \<Rightarrow> objectId option \<Rightarrow> conversation \<Rightarrow> bool" where
  "conversationFor a b i c = (a \<in> set (conv_participants c) \<and> b \<in> set (conv_participants c) \<and> conv_item c = i)"

text \<open>Find the conversation of the two users on the item, or create it.\<close>

definition findOrCreateConversation ::
  "objectId \<Rightarrow> objectId \<Rightarrow> objectId option \<Rightarrow> conversation list \<Rightarrow> objectId \<times> conversation list" where
  "findOrCreateConversation a b i convs =
     (case findOne (conversationFor a b i) convs of
        Some (cid, c) \<Rightarrow> (cid, convs)
      | None \<Rightarrow> (length convs,
                 convs @ [\<lparr>conv_participants = [a, b], conv_item = i, conv_lastMessage = None\<rparr>]))"

definition approveChatRequest :: "objectId \<Rightarrow> objectId \<Rightarrow> db \<Rightarrow> (error + objectId) \<times> db" where
  "approveChatRequest uid chatRequestId s =
     (case findById chatRequestId (chatRequests s) of
        None \<Rightarrow> (Inl ChatRequestNotFound, s)
      | Some cr \<Rightarrow>
          if cr_owner cr \<noteq> uid then (Inl NotAuthorized, s)
          else if \<not> cr_answerCorrect cr then (Inl AnswerNotVerified, s)
          else
            (case findOrCreateConversation (cr_requester cr) (cr_owner cr) (Some (cr_item cr))
                    (conversations s) of
               (convId, convs) \<Rightarrow>
                 let s1 = s\<lparr>conversations := convs,
                            chatRequests := (chatRequests s)
                              [chatRequestId := cr\<lparr>cr_status := Approved,
                                                   cr_conversation := Some convId\<rparr>]\<rparr>
                 in (Inr convId, createNotification (Some (cr_requester cr)) ''chat_approved'' s1)))"

definition declineChatRequest :: "objectId \<Rightarrow> objectId \<Rightarrow> db \<Rightarrow> (error + unit) \<times> db" where
  "declineChatRequest uid chatRequestId s =
     (case findById chatRequestId (chatRequests s) of
        None \<Rightarrow> (Inl ChatRequestNotFound, s)
      | Some cr \<Rightarrow>
          if cr_owner cr \<noteq> uid then (Inl NotAuthorized, s)
          else
            let s1 = s\<lparr>chatRequests := (chatRequests s)
                         [chatRequestId := cr\<lparr>cr_status := Declined\<rparr>]\<rparr>
            in (Inr (), createNotification (Some (cr_requester cr)) ''chat_declined'' s1))"

section \<open>messageController\<close>

text \<open>The query \<^verbatim>\<open>{item, requester, status: 'approved'}\<close> of \<open>sendMessage\<close>.\<close>

definition approvedQuery :: "objectId \<Rightarrow> objectId \<Rightarrow> chatRequest \<Rightarrow> bool" where
  "approvedQuery i u r = (cr_item r = i \<and> cr_requester r = u \<and> cr_status r = Approved)"

text \<open>
  \<open>populate('item')\<close> replaces the conversation's item reference by the item document, or
  by \<open>null\<close> when the reference is \<open>null\<close> or the item is not in the store.
\<close>

definition populateItem :: "conversation \<Rightarrow> item list \<Rightarrow> (objectId \<times> item) option" where
  "populateItem c its =
     (case conv_item c of
        None \<Rightarrow> None
      | Some i \<Rightarrow> (case findById i its of None \<Rightarrow> None | Some it \<Rightarrow> Some (i, it)))"

definition sendMessage :: "objectId \<Rightarrow> objectId \<Rightarrow> string \<Rightarrow> db \<Rightarrow> (error + objectId) \<times> db" where
  "sendMessage uid conversationId content s =
     (case findById conversationId (conversations s) of
        None \<Rightarrow> (Inl ConversationNotFound, s)
      | Some conv \<Rightarrow>
          if uid \<notin> set (conv_participants conv) then (Inl NotAuthorized, s)
          else if (case populateItem conv (items s) of
                     None \<Rightarrow> False
                   | Some (i, it) \<Rightarrow>
                       item_verificationQuestion it \<noteq> [] \<and>
                       findOne (approvedQuery i uid) (chatRequests s) = None)
          then (Inl VerificationNotApproved, s)
          else
            let msgId = length (messages s);
                s1 = s\<lparr>messages := messages s @
                           [\<lparr>msg_conversation = conversationId, msg_sender = uid, msg_content = content\<rparr>],
                         conversations := (conversations s)
                           [conversationId := conv\<lparr>conv_lastMessage := Some msgId\<rparr>]\<rparr>;
                recipient = find (\<lambda>p. p \<noteq> uid) (conv_participants conv)
            in (Inr msgId, createNotification recipient ''message'' s1))"

definition createConversation ::
  "objectId \<Rightarrow> objectId \<Rightarrow> objectId option \<Rightarrow> string option \<Rightarrow> db \<Rightarrow> (error + objectId) \<times> db" where
  "createConversation uid recipientId itemId msg s =
     (if recipientId = uid then (Inl SelfConversation, s)
      else
        (case findOrCreateConversation uid recipientId itemId (conversations s) of
           (convId, convs) \<Rightarrow>
             let s1 = s\<lparr>conversations := convs\<rparr> in
             (case msg of
                None \<Rightarrow> (Inr convId, s1)
              | Some m \<Rightarrow>
                  if m = [] then (Inr convId, s1)
                  else
                    let msgId = length (messages s1);
                        s2 = s1\<lparr>messages := messages s1 @
                                  [\<lparr>msg_conversation = convId, msg_sender = uid, msg_content = m\<rparr>],
                                conversations := (conversations s1)
                                  [convId := (conversations s1 ! convId)\<lparr>conv_lastMessage := Some msgId\<rparr>]\<rparr>
                    in (Inr convId, createNotification (Some recipientId) ''message'' s2))))"

section \<open>Sequences of requests\<close>

datatype request =
    SubmitAnswer objectId objectId "string option"
  | Approve objectId objectId
  | Decline objectId objectId
  | SendMessage objectId objectId string
  | CreateConversation objectId objectId "objectId option" "string option"

fun handle :: "request \<Rightarrow> db \<Rightarrow> db" where
  "handle (SubmitAnswer u i a) s = snd (submitVerificationAnswer u i a s)"
| "handle (Approve u c) s = snd (approveChatRequest u c s)"
| "handle (Decline u c) s = snd (declineChatRequest u c s)"
| "handle (SendMessage u c m) s = snd (sendMessage u c m s)"
| "handle (CreateConversation u r i m) s = snd (createConversation u r i m s)"

fun run :: "request list \<Rightarrow> db \<Rightarrow> db" where
  "run [] s = s"
| "run (q # qs) s = run qs (handle q s)"

definition initial :: "item list \<Rightarrow> db" where
  "initial its = \<lparr>items = its, chatRequests = [], conversations = [], messages = [], notifications = []\<rparr>"

section \<open>Invariant of the ledger\<close>

text \<open>
  What every record of a reachable ledger satisfies: its item is in the store and has a
  question, its owner is the item's owner, its requester is someone else, a pending record
  has no conversation and an approved one has one.
\<close>

definition requestInv :: "item list \<Rightarrow> chatRequest \<Rightarrow> bool" where
  "requestInv its r =
     ((case findById (cr_item r) its of
         None \<Rightarrow> False
       | Some it \<Rightarrow> cr_owner r = item_user it \<and> item_verificationQuestion it \<noteq> []) \<and>
      cr_requester r \<noteq> cr_owner r \<and>
      (cr_status r = Pending \<longrightarrow> cr_conversation r = None) \<and>
      (cr_status r = Approved \<longrightarrow> cr_conversation r \<noteq> None))"

text \<open>No two records share item and requester.\<close>

definition requestKey :: "chatRequest \<Rightarrow> objectId \<times> objectId" where
  "requestKey r = (cr_item r, cr_requester r)"

definition ledgerInv :: "db \<Rightarrow> bool" where
  "ledgerInv s = ((\<forall>r \<in> set (chatRequests s). requestInv (items s) r) \<and>
                  distinct (map requestKey (chatRequests s)))"

section \<open>Scenarios\<close>

text \<open>The item of the spec's scenarios: question "What color?", stored answer "blue", owner 1.\<close>

definition blueItem :: item where
  "blueItem = \<lparr>item_user = 1, item_verificationQuestion = ''What color?'', item_verificationAnswer = ''blue''\<rparr>"

text \<open>An item with no verification configured, and one with a question but no answer.\<close>

definition openItem :: item where
  "openItem = \<lparr>item_user = 1, item_verificationQuestion = [], item_verificationAnswer = []\<rparr>"

definition noAnswerItem :: item where
  "noAnswerItem = \<lparr>item_user = 1, item_verificationQuestion = ''What color?'', item_verificationAnswer = []\<rparr>"

text \<open>Scenario B: user 2 answers "red".\<close>

definition wrongAnswerState :: db where
  "wrongAnswerState = run [SubmitAnswer 2 0 (Some ''red'')] (initial [blueItem])"

text \<open>Scenario A: user 2 answers "BLUE ", the owner approves; then the owner declines.\<close>

definition approvedState :: db where
  "approvedState = run [SubmitAnswer 2 0 (Some ''BLUE ''), Approve 1 0] (initial [blueItem])"

definition declinedAfterApproval :: db where
  "declinedAfterApproval = run [Decline 1 0] approvedState"


text \<open>After scenario A, user 3 opens a conversation with user 2 on the same item.\<close>

definition crossChannelState :: db where
  "crossChannelState = run [CreateConversation 3 2 (Some 0) None] approvedState"

section \<open>Evaluation rules\<close>

lemmas norm_defs = schemaString_def trim_def trimStart_def trimEnd_def toLowerCase_def toLowerChar_def
  upperLetters_def lowerLetters_def isWhiteSpace_def

lemmas handler_defs = submitVerificationAnswer_def approveChatRequest_def declineChatRequest_def
  sendMessage_def createConversation_def findOrCreateConversation_def conversationFor_def
  ChatRequest_create_def createNotification_def populateItem_def findById_def findOne_def initial_def
  requestQuery_def approvedQuery_def Let_def

section \<open>Normalisation is idempotent\<close>











section \<open>Queries\<close>

lemma findOneFrom_None: "findOneFrom P n xs = None \<longleftrightarrow> (\<forall>x \<in> set xs. \<not> P x)"
  by (induction xs arbitrary: n) auto

lemma findOneFrom_Some:
  "findOneFrom P n xs = Some (k, r) \<Longrightarrow>
     \<exists>j. k = n + j \<and> j < length xs \<and> xs ! j = r \<and> P r \<and> (\<forall>l < j. \<not> P (xs ! l))"
proof (induction xs arbitrary: n)
  case Nil
  then show ?case by simp
next
  case (Cons x xs)
  show ?case
  proof (cases "P x")
    case True
    with Cons.prems show ?thesis by simp
  next
    case False
    with Cons.prems have "findOneFrom P (Suc n) xs = Some (k, r)" by simp
    from Cons.IH [OF this] obtain j where
      j: "k = Suc n + j" "j < length xs" "xs ! j = r" "P r" "\<forall>l < j. \<not> P (xs ! l)"
      by blast
    have "\<forall>l < Suc j. \<not> P ((x # xs) ! l)"
      using False j(5) by (simp add: nth_Cons split: nat.splits)
    with j show ?thesis
      by (intro exI [of _ "Suc j"]) simp
  qed
qed

lemma findOneFrom_append:
  "findOneFrom P n (xs @ ys) =
     (case findOneFrom P n xs of Some r \<Rightarrow> Some r | None \<Rightarrow> findOneFrom P (n + length xs) ys)"
proof (induction xs arbitrary: n)
  case Nil
  then show ?case by simp
next
  case (Cons x xs)
  then show ?case by (cases "P x") (simp_all split: option.splits)
qed

lemma findOne_None: "findOne P xs = None \<longleftrightarrow> (\<forall>x \<in> set xs. \<not> P x)"
  by (simp add: findOne_def findOneFrom_None)

lemma findOne_Some:
  "findOne P xs = Some (k, r) \<Longrightarrow> k < length xs \<and> xs ! k = r \<and> P r \<and> (\<forall>j < k. \<not> P (xs ! j))"
  using findOneFrom_Some [of P 0 xs k r] by (simp add: findOne_def)


lemma findOne_snoc_Some:
  "findOne P xs = Some kr \<Longrightarrow> findOne P (xs @ ys) = Some kr"
  by (simp add: findOne_def findOneFrom_append)

section \<open>Submitting an answer\<close>


lemma submit_create_fails:
  assumes "findById i (items s) = Some it" "item_verificationQuestion it \<noteq> []" "u \<noteq> item_user it"
    and "findOne (requestQuery i u (item_user it)) (chatRequests s) = None"
    and "schemaString (item_verificationAnswer it) = []"
  shows "submitVerificationAnswer u i (Some a) s = (Inl ServerError, s)"
  using assms by (simp add: submitVerificationAnswer_def ChatRequest_create_def Let_def)


lemma chatRequests_createNotification [simp]:
  "chatRequests (createNotification u t s) = chatRequests s"
  "conversations (createNotification u t s) = conversations s"
  "items (createNotification u t s) = items s"
  "messages (createNotification u t s) = messages s"
  by (simp_all add: createNotification_def)

lemma fields_notify_if [simp]:
  "chatRequests ((if b then createNotification u t else id) s) = chatRequests s"
  "conversations ((if b then createNotification u t else id) s) = conversations s"
  "items ((if b then createNotification u t else id) s) = items s"
  "messages ((if b then createNotification u t else id) s) = messages s"
  by simp_all




text \<open>
  C5 as the code has it. A submission by the item's owner always fails and leaves the
  database as it was. The question is checked before the requester, so the error is
  \<open>SelfContact\<close> when the item has a verification question and \<open>VerificationNotConfigured\<close>
  when it has none.
\<close>

theorem self_contact_rejected:
  "findById i (items s) = Some it \<Longrightarrow> item_user it = u \<Longrightarrow>
   submitVerificationAnswer u i a s =
     (Inl (if item_verificationQuestion it = [] then VerificationNotConfigured else SelfContact), s)"
  by (simp add: submitVerificationAnswer_def)

theorem self_contact_rejected_witness:
  "findById 0 (items (initial [blueItem])) = Some blueItem \<and> item_user blueItem = 1 \<and>
   submitVerificationAnswer 1 0 (Some ''blue'') (initial [blueItem]) = (Inl SelfContact, initial [blueItem])"
  using self_contact_rejected [of 0 "initial [blueItem]" blueItem 1 "Some ''blue''"]
  by (simp add: findById_def initial_def blueItem_def)


text \<open>C5 as stated fails on an item without a question: the owner gets \<open>VerificationNotConfigured\<close>.\<close>

theorem self_contact_counterexample:
  "item_user openItem = 1 \<and>
   fst (submitVerificationAnswer 1 0 (Some ''blue'') (initial [openItem])) = Inl VerificationNotConfigured \<and>
   fst (submitVerificationAnswer 1 0 (Some ''blue'') (initial [openItem])) \<noteq> Inl SelfContact"
  by (simp add: submitVerificationAnswer_def findById_def initial_def openItem_def)


text \<open>
  C9 as the code has it. For an item in the store, a submission fails with
  \<open>VerificationNotConfigured\<close> exactly when the item's question is empty, and then the
  database is unchanged. The stored answer is not looked at by this check.
\<close>

theorem not_configured_iff_no_question:
  "findById i (items s) = Some it \<Longrightarrow>
   (fst (submitVerificationAnswer u i a s) = Inl VerificationNotConfigured
      \<longleftrightarrow> item_verificationQuestion it = []) \<and>
   (item_verificationQuestion it = [] \<longrightarrow>
      submitVerificationAnswer u i a s = (Inl VerificationNotConfigured, s))"
  by (simp add: submitVerificationAnswer_def Let_def split: option.splits prod.splits)


text \<open>
  C9 as stated fails on an item with a question and no answer: the first submission is not
  rejected with \<open>VerificationNotConfigured\<close>; creating the record fails on the required
  \<open>correctAnswer\<close> and the handler answers 500.
\<close>

theorem not_configured_counterexample:
  "item_verificationAnswer noAnswerItem = [] \<and>
   submitVerificationAnswer 2 0 (Some ''blue'') (initial [noAnswerItem])
     = (Inl ServerError, initial [noAnswerItem]) \<and>
   fst (submitVerificationAnswer 2 0 (Some ''blue'') (initial [noAnswerItem]))
     \<noteq> Inl VerificationNotConfigured"
  by (simp add: handler_defs noAnswerItem_def norm_defs)

theorem not_configured_iff_no_question_witness:
  "findById 0 (items (initial [openItem])) = Some openItem \<and>
   submitVerificationAnswer 2 0 (Some ''blue'') (initial [openItem])
     = (Inl VerificationNotConfigured, initial [openItem])"
  using not_configured_iff_no_question [of 0 "initial [openItem]" openItem 2 "Some ''blue''"]
  by (simp add: findById_def initial_def openItem_def)


section \<open>Owner decisions\<close>

lemma wrongAnswerState_requests:
  "chatRequests wrongAnswerState =
     [\<lparr>cr_item = 0, cr_requester = 2, cr_owner = 1, cr_verificationQuestion = ''What color?'',
       cr_correctAnswer = ''blue'', cr_submittedAnswer = Some ''red'', cr_answerCorrect = False,
       cr_status = Pending, cr_conversation = None\<rparr>]"
  by (simp add: wrongAnswerState_def handler_defs blueItem_def norm_defs)

text \<open>
  C7. Approval by the record's owner of a record whose \<open>answerCorrect\<close> is false fails with
  \<open>AnswerNotVerified\<close>; the database after the call is the database before it, so no
  conversation is created and the record is unchanged.
\<close>

theorem approve_unverified_rejected:
  "findById c (chatRequests s) = Some r \<Longrightarrow> cr_owner r = u \<Longrightarrow> \<not> cr_answerCorrect r \<Longrightarrow>
   approveChatRequest u c s = (Inl AnswerNotVerified, s)"
  by (simp add: approveChatRequest_def)

theorem approve_unverified_rejected_witness:
  "cr_owner (chatRequests wrongAnswerState ! 0) = 1 \<and>
   \<not> cr_answerCorrect (chatRequests wrongAnswerState ! 0) \<and>
   approveChatRequest 1 0 wrongAnswerState = (Inl AnswerNotVerified, wrongAnswerState)"
  using approve_unverified_rejected [of 0 wrongAnswerState "chatRequests wrongAnswerState ! 0" 1]
  by (simp add: wrongAnswerState_requests findById_def)



section \<open>The invariant holds in every reachable database\<close>

lemma ledgerInv_initial: "ledgerInv (initial its)"
  by (simp add: ledgerInv_def initial_def)

lemma ledgerInv_update:
  assumes inv: "ledgerInv s" and k: "k < length (chatRequests s)"
    and r': "requestInv (items s) r'" "requestKey r' = requestKey (chatRequests s ! k)"
    and s': "items s' = items s" "chatRequests s' = (chatRequests s)[k := r']"
  shows "ledgerInv s'"
proof -
  have "set ((chatRequests s)[k := r']) \<subseteq> insert r' (set (chatRequests s))"
    by (rule set_update_subset_insert)
  with inv r'(1) have a: "\<forall>r \<in> set (chatRequests s'). requestInv (items s') r"
    by (auto simp: ledgerInv_def s')
  have "map requestKey ((chatRequests s)[k := r']) = (map requestKey (chatRequests s))[k := requestKey r']"
    by (rule map_update)
  also have "\<dots> = map requestKey (chatRequests s)"
    using k r'(2) by (simp add: list_update_same_conv)
  finally have "distinct (map requestKey (chatRequests s'))"
    using inv by (simp add: ledgerInv_def s')
  with a show ?thesis by (simp add: ledgerInv_def)
qed

lemma ledgerInv_snoc:
  assumes inv: "ledgerInv s" and d: "requestInv (items s) d"
    and fresh: "\<forall>r \<in> set (chatRequests s). requestKey r \<noteq> requestKey d"
    and s': "items s' = items s" "chatRequests s' = chatRequests s @ [d]"
  shows "ledgerInv s'"
  using assms by (auto simp: ledgerInv_def)

lemma ledgerInv_same:
  "ledgerInv s \<Longrightarrow> items s' = items s \<Longrightarrow> chatRequests s' = chatRequests s \<Longrightarrow> ledgerInv s'"
  by (simp add: ledgerInv_def)

lemma findById_Some: "findById k xs = Some r \<longleftrightarrow> k < length xs \<and> xs ! k = r"
  by (auto simp: findById_def)

text \<open>What each handler does to the ledger and the item store.\<close>

lemma approve_cases:
  "approveChatRequest u k s = (res, s') \<Longrightarrow>
     items s' = items s \<and>
     ((\<exists>e. res = Inl e \<and> s' = s) \<or>
      (\<exists>c r. res = Inr c \<and> findById k (chatRequests s) = Some r \<and> cr_owner r = u \<and> cr_answerCorrect r \<and>
             chatRequests s' = (chatRequests s)[k := r\<lparr>cr_status := Approved, cr_conversation := Some c\<rparr>]))"
  by (auto simp: approveChatRequest_def Let_def createNotification_def
           split: option.splits if_splits prod.splits)

lemma decline_cases:
  "declineChatRequest u k s = (res, s') \<Longrightarrow>
     items s' = items s \<and> conversations s' = conversations s \<and>
     ((\<exists>e. res = Inl e \<and> s' = s) \<or>
      (\<exists>r. res = Inr () \<and> findById k (chatRequests s) = Some r \<and> cr_owner r = u \<and>
           chatRequests s' = (chatRequests s)[k := r\<lparr>cr_status := Declined\<rparr>]))"
  by (auto simp: declineChatRequest_def Let_def createNotification_def
           split: option.splits if_splits)

lemma submit_cases:
  "submitVerificationAnswer u i a s = (res, s') \<Longrightarrow>
     items s' = items s \<and> conversations s' = conversations s \<and>
     ((\<exists>e. res = Inl e \<and> s' = s) \<or>
      (\<exists>it b ans. findById i (items s) = Some it \<and> item_verificationQuestion it \<noteq> [] \<and> u \<noteq> item_user it \<and>
          a = Some ans \<and> b = (trim (toLowerCase ans) = item_verificationAnswer it) \<and>
          ((findOne (requestQuery i u (item_user it)) (chatRequests s) = None \<and>
            res = Inr (b, length (chatRequests s)) \<and>
            chatRequests s' = chatRequests s @
              [\<lparr>cr_item = i, cr_requester = u, cr_owner = item_user it,
                cr_verificationQuestion = item_verificationQuestion it,
                cr_correctAnswer = schemaString (item_verificationAnswer it),
                cr_submittedAnswer = Some (schemaString (trim (toLowerCase ans))),
                cr_answerCorrect = b, cr_status = Pending, cr_conversation = None\<rparr>]) \<or>
           (\<exists>cid r. findOne (requestQuery i u (item_user it)) (chatRequests s) = Some (cid, r) \<and>
            res = Inr (b, cid) \<and>
            chatRequests s' = (chatRequests s)
              [cid := r\<lparr>cr_submittedAnswer := Some (schemaString (trim (toLowerCase ans))),
                        cr_answerCorrect := b\<rparr>]))))"
  by (auto simp: submitVerificationAnswer_def Let_def createNotification_def ChatRequest_create_def
           split: option.splits if_splits prod.splits)

lemma send_fields:
  "items (snd (sendMessage u c m s)) = items s \<and> chatRequests (snd (sendMessage u c m s)) = chatRequests s"
  by (simp add: sendMessage_def Let_def createNotification_def split: option.splits)

lemma createConversation_fields:
  "items (snd (createConversation u r i m s)) = items s \<and>
   chatRequests (snd (createConversation u r i m s)) = chatRequests s"
  by (simp add: createConversation_def Let_def createNotification_def split: option.splits prod.splits)

lemma ledgerInv_nth: "ledgerInv s \<Longrightarrow> k < length (chatRequests s) \<Longrightarrow> requestInv (items s) (chatRequests s ! k)"
  by (simp add: ledgerInv_def)

lemma ledgerInv_approve: 
  assumes inv: "ledgerInv s" shows "ledgerInv (snd (approveChatRequest u k s))"
proof -
  obtain res s' where eq: "approveChatRequest u k s = (res, s')" by (cases "approveChatRequest u k s")
  from approve_cases [OF eq] have items: "items s' = items s" by simp
  from approve_cases [OF eq] consider
    (err) "s' = s"
    | (ok) c r where "findById k (chatRequests s) = Some r"
        "chatRequests s' = (chatRequests s)[k := r\<lparr>cr_status := Approved, cr_conversation := Some c\<rparr>]"
    by blast
  then have "ledgerInv s'"
  proof cases
    case err
    with inv show ?thesis by simp
  next
    case ok
    from ok(1) have k: "k < length (chatRequests s)" and r: "chatRequests s ! k = r"
      by (simp_all add: findById_Some)
    from ledgerInv_nth [OF inv k] r have "requestInv (items s) r" by simp
    then have a: "requestInv (items s) (r\<lparr>cr_status := Approved, cr_conversation := Some c\<rparr>)"
      by (simp add: requestInv_def split: option.splits)
    have b: "requestKey (r\<lparr>cr_status := Approved, cr_conversation := Some c\<rparr>) = requestKey (chatRequests s ! k)"
      using r by (simp add: requestKey_def)
    from inv k a b items ok(2) show ?thesis by (rule ledgerInv_update)
  qed
  with eq show ?thesis by simp
qed

lemma ledgerInv_decline:
  assumes inv: "ledgerInv s" shows "ledgerInv (snd (declineChatRequest u k s))"
proof -
  obtain res s' where eq: "declineChatRequest u k s = (res, s')" by (cases "declineChatRequest u k s")
  from decline_cases [OF eq] have items: "items s' = items s" by simp
  from decline_cases [OF eq] consider
    (err) "s' = s"
    | (ok) r where "findById k (chatRequests s) = Some r"
        "chatRequests s' = (chatRequests s)[k := r\<lparr>cr_status := Declined\<rparr>]"
    by blast
  then have "ledgerInv s'"
  proof cases
    case err
    with inv show ?thesis by simp
  next
    case ok
    from ok(1) have k: "k < length (chatRequests s)" and r: "chatRequests s ! k = r"
      by (simp_all add: findById_Some)
    from ledgerInv_nth [OF inv k] r have "requestInv (items s) r" by simp
    then have a: "requestInv (items s) (r\<lparr>cr_status := Declined\<rparr>)"
      by (simp add: requestInv_def split: option.splits)
    have b: "requestKey (r\<lparr>cr_status := Declined\<rparr>) = requestKey (chatRequests s ! k)"
      using r by (simp add: requestKey_def)
    from inv k a b items ok(2) show ?thesis by (rule ledgerInv_update)
  qed
  with eq show ?thesis by simp
qed

text \<open>In a ledger that satisfies the invariant, the owner of a record is the owner of its item.\<close>

lemma ledgerInv_owner:
  "ledgerInv s \<Longrightarrow> r \<in> set (chatRequests s) \<Longrightarrow> findById (cr_item r) (items s) = Some it \<Longrightarrow>
   cr_owner r = item_user it \<and> cr_requester r \<noteq> item_user it \<and> item_verificationQuestion it \<noteq> []"
  by (auto simp: ledgerInv_def requestInv_def)

lemma ledgerInv_submit:
  assumes inv: "ledgerInv s" shows "ledgerInv (snd (submitVerificationAnswer u i a s))"
proof -
  obtain res s' where eq: "submitVerificationAnswer u i a s = (res, s')"
    by (cases "submitVerificationAnswer u i a s")
  from submit_cases [OF eq] have items: "items s' = items s" by simp
  from submit_cases [OF eq] consider
    (err) "s' = s"
    | (new) it d where "findById i (items s) = Some it" "item_verificationQuestion it \<noteq> []"
        "u \<noteq> item_user it" "findOne (requestQuery i u (item_user it)) (chatRequests s) = None"
        "cr_item d = i" "cr_requester d = u" "cr_owner d = item_user it" "cr_status d = Pending"
        "cr_conversation d = None" "chatRequests s' = chatRequests s @ [d]"
    | (upd) it cid r sa b where "findById i (items s) = Some it"
        "findOne (requestQuery i u (item_user it)) (chatRequests s) = Some (cid, r)"
        "chatRequests s' = (chatRequests s)[cid := r\<lparr>cr_submittedAnswer := sa, cr_answerCorrect := b\<rparr>]"
    by (elim conjE disjE exE) (blast, force, blast)
  then have "ledgerInv s'"
  proof cases
    case err
    with inv show ?thesis by simp
  next
    case new
    have d: "requestInv (items s) d"
      using new by (simp add: requestInv_def)
    have "\<forall>r \<in> set (chatRequests s). requestKey r \<noteq> requestKey d"
    proof
      fix r assume r: "r \<in> set (chatRequests s)"
      show "requestKey r \<noteq> requestKey d"
      proof
        assume "requestKey r = requestKey d"
        with new have same: "cr_item r = i" "cr_requester r = u" by (simp_all add: requestKey_def)
        with ledgerInv_owner [OF inv r] new(1) have "cr_owner r = item_user it" by simp
        with same have "requestQuery i u (item_user it) r" by (simp add: requestQuery_def)
        with new(4) r show False by (simp add: findOne_None)
      qed
    qed
    with inv d show ?thesis using items new(10) by (rule ledgerInv_snoc)
  next
    case upd
    from findOne_Some [OF upd(2)] have k: "cid < length (chatRequests s)" and r: "chatRequests s ! cid = r"
      by simp_all
    from ledgerInv_nth [OF inv k] r have "requestInv (items s) r" by simp
    then have a: "requestInv (items s) (r\<lparr>cr_submittedAnswer := sa, cr_answerCorrect := b\<rparr>)"
      by (simp add: requestInv_def split: option.splits)
    have b: "requestKey (r\<lparr>cr_submittedAnswer := sa, cr_answerCorrect := b\<rparr>) = requestKey (chatRequests s ! cid)"
      using r by (simp add: requestKey_def)
    from inv k a b items upd(3) show ?thesis by (rule ledgerInv_update)
  qed
  with eq show ?thesis by simp
qed

lemma items_handle: "items (handle q s) = items s"
proof (cases q)
  case (SubmitAnswer u i a)
  then show ?thesis using submit_cases [of u i a s] by (cases "submitVerificationAnswer u i a s") simp
next
  case (Approve u k)
  then show ?thesis using approve_cases [of u k s] by (cases "approveChatRequest u k s") simp
next
  case (Decline u k)
  then show ?thesis using decline_cases [of u k s] by (cases "declineChatRequest u k s") simp
next
  case (SendMessage u c m)
  then show ?thesis by (simp add: send_fields)
next
  case (CreateConversation u r i m)
  then show ?thesis by (simp add: createConversation_fields)
qed

lemma ledgerInv_handle: "ledgerInv s \<Longrightarrow> ledgerInv (handle q s)"
proof (cases q)
  case (SendMessage u c m)
  assume "ledgerInv s"
  then show ?thesis unfolding SendMessage handle.simps
    by (rule ledgerInv_same) (simp_all add: send_fields)
next
  case (CreateConversation u r i m)
  assume "ledgerInv s"
  then show ?thesis unfolding CreateConversation handle.simps
    by (rule ledgerInv_same) (simp_all add: createConversation_fields)
qed (simp_all add: ledgerInv_submit ledgerInv_approve ledgerInv_decline)

lemma items_run: "items (run qs s) = items s"
  by (induction qs arbitrary: s) (simp_all add: items_handle)

lemma ledgerInv_run: "ledgerInv s \<Longrightarrow> ledgerInv (run qs s)"
  by (induction qs arbitrary: s) (simp_all add: ledgerInv_handle)

lemma ledgerInv_reachable: "ledgerInv (run qs (initial its))"
  by (simp add: ledgerInv_run ledgerInv_initial)

lemma items_reachable: "items (run qs (initial its)) = its"
  by (simp add: items_run initial_def)

lemma approvedState_eq:
  "approvedState =
     \<lparr>items = [blueItem],
      chatRequests =
        [\<lparr>cr_item = 0, cr_requester = 2, cr_owner = 1, cr_verificationQuestion = ''What color?'',
          cr_correctAnswer = ''blue'', cr_submittedAnswer = Some ''blue'', cr_answerCorrect = True,
          cr_status = Approved, cr_conversation = Some 0\<rparr>],
      conversations = [\<lparr>conv_participants = [2, 1], conv_item = Some 0, conv_lastMessage = None\<rparr>],
      messages = [],
      notifications = [\<lparr>n_user = Some 1, n_type = ''chat_request''\<rparr>,
                       \<lparr>n_user = Some 2, n_type = ''chat_approved''\<rparr>]\<rparr>"
  by (simp add: approvedState_def handler_defs blueItem_def norm_defs)

text \<open>
  C2 as the code has it. In every ledger reached from an empty one by any sequence of
  requests, a record whose status is approved has a conversation and a record whose status
  is pending has none. A declined record keeps the conversation it had, if any.
\<close>

theorem channel_follows_status:
  "r \<in> set (chatRequests (run qs (initial its))) \<Longrightarrow>
   (cr_status r = Approved \<longrightarrow> cr_conversation r \<noteq> None) \<and>
   (cr_status r = Pending \<longrightarrow> cr_conversation r = None)"
  using ledgerInv_reachable [of qs its] by (simp add: ledgerInv_def requestInv_def)

theorem channel_follows_status_witness:
  "chatRequests approvedState ! 0 \<in> set (chatRequests approvedState) \<and>
   cr_status (chatRequests approvedState ! 0) = Approved \<and>
   cr_conversation (chatRequests approvedState ! 0) = Some 0 \<and>
   chatRequests wrongAnswerState ! 0 \<in> set (chatRequests wrongAnswerState) \<and>
   cr_status (chatRequests wrongAnswerState ! 0) = Pending \<and>
   cr_conversation (chatRequests wrongAnswerState ! 0) = None"
  using channel_follows_status [of "chatRequests approvedState ! 0"
      "[SubmitAnswer 2 0 (Some ''BLUE ''), Approve 1 0]" "[blueItem]"]
  by (simp add: approvedState_eq wrongAnswerState_requests)

text \<open>
  C2 as stated fails: after submit, approve, decline the record is declined and still
  carries the conversation of the approval.
\<close>

theorem channel_iff_approved_counterexample:
  "cr_status (chatRequests declinedAfterApproval ! 0) = Declined \<and>
   cr_conversation (chatRequests declinedAfterApproval ! 0) = Some 0"
  by (simp add: declinedAfterApproval_def approvedState_eq declineChatRequest_def findById_def
        createNotification_def)

section \<open>The gate of sendMessage\<close>

text \<open>
  C10. In every reachable database, a send by the owner of a verification-protected item
  on a conversation of that item is refused: by the verification gate when the owner is a
  participant (no record has the owner as requester), as not authorized otherwise. The
  database is unchanged.
\<close>

theorem owner_cannot_send:
  assumes s: "s = run qs (initial its)"
    and conv: "findById c (conversations s) = Some conv" "conv_item conv = Some i"
    and it: "findById i its = Some it" "item_verificationQuestion it \<noteq> []"
  shows "sendMessage (item_user it) c m s =
           (Inl (if item_user it \<in> set (conv_participants conv)
                 then VerificationNotApproved else NotAuthorized), s)"
proof -
  have inv: "ledgerInv s" and items: "items s = its"
    by (simp_all add: s ledgerInv_reachable items_reachable)
  have "findOne (approvedQuery i (item_user it)) (chatRequests s) = None"
    unfolding findOne_None
  proof
    fix r assume r: "r \<in> set (chatRequests s)"
    show "\<not> approvedQuery i (item_user it) r"
    proof
      assume "approvedQuery i (item_user it) r"
      then have "cr_item r = i" "cr_requester r = item_user it" by (simp_all add: approvedQuery_def)
      with ledgerInv_owner [OF inv r, of it] it(1) items show False by simp
    qed
  qed
  with conv it items show ?thesis
    by (simp add: sendMessage_def populateItem_def)
qed

theorem owner_cannot_send_witness:
  "approvedState = run [SubmitAnswer 2 0 (Some ''BLUE ''), Approve 1 0] (initial [blueItem]) \<and>
   findById 0 (conversations approvedState) = Some (conversations approvedState ! 0) \<and>
   conv_item (conversations approvedState ! 0) = Some 0 \<and>
   findById 0 [blueItem] = Some blueItem \<and>
   item_verificationQuestion blueItem \<noteq> [] \<and>
   item_user blueItem \<in> set (conv_participants (conversations approvedState ! 0)) \<and>
   cr_conversation (chatRequests approvedState ! 0) = Some 0 \<and>
   sendMessage (item_user blueItem) 0 ''hello'' approvedState = (Inl VerificationNotApproved, approvedState)"
proof -
  have h1: "approvedState = run [SubmitAnswer 2 0 (Some ''BLUE ''), Approve 1 0] (initial [blueItem])"
    by (simp only: approvedState_def)
  have h2: "findById 0 (conversations approvedState) = Some (conversations approvedState ! 0)"
    by (simp add: approvedState_eq findById_def)
  have h3: "conv_item (conversations approvedState ! 0) = Some 0"
    by (simp add: approvedState_eq)
  have h4: "findById 0 [blueItem] = Some blueItem"
    by (simp add: findById_def)
  have h5: "item_verificationQuestion blueItem \<noteq> []"
    by (simp add: blueItem_def)
  have h6: "item_user blueItem \<in> set (conv_participants (conversations approvedState ! 0))"
    by (simp add: approvedState_eq blueItem_def)
  have h7: "cr_conversation (chatRequests approvedState ! 0) = Some 0"
    by (simp add: approvedState_eq)
  from owner_cannot_send [OF h1 h2 h3 h4 h5, of "''hello''"] h6
  have "sendMessage (item_user blueItem) 0 ''hello'' approvedState = (Inl VerificationNotApproved, approvedState)"
    by simp
  with h1 h2 h3 h4 h5 h6 h7 show ?thesis by (intro conjI)
qed

section \<open>Status transitions\<close>

lemma approve_not_found:
  "findById c (chatRequests s) = None \<Longrightarrow> approveChatRequest u c s = (Inl ChatRequestNotFound, s)"
  by (simp add: approveChatRequest_def)

lemma approve_not_owner:
  "findById c (chatRequests s) = Some r \<Longrightarrow> cr_owner r \<noteq> u \<Longrightarrow>
   approveChatRequest u c s = (Inl NotAuthorized, s)"
  by (simp add: approveChatRequest_def)

lemma approve_not_verified:
  "findById c (chatRequests s) = Some r \<Longrightarrow> cr_owner r = u \<Longrightarrow> \<not> cr_answerCorrect r \<Longrightarrow>
   approveChatRequest u c s = (Inl AnswerNotVerified, s)"
  by (simp add: approveChatRequest_def)

lemma approve_ok:
  assumes "findById c (chatRequests s) = Some r" "cr_owner r = u" "cr_answerCorrect r"
    and "findOrCreateConversation (cr_requester r) (cr_owner r) (Some (cr_item r)) (conversations s)
           = (cid, convs)"
  shows "approveChatRequest u c s =
     (Inr cid, createNotification (Some (cr_requester r)) ''chat_approved''
        (s\<lparr>conversations := convs,
           chatRequests := (chatRequests s)[c := r\<lparr>cr_status := Approved, cr_conversation := Some cid\<rparr>]\<rparr>))"
  using assms by (simp add: approveChatRequest_def)

lemma approve_status:
  assumes f: "findById k (chatRequests s) = Some r"
  shows "k < length (chatRequests (snd (approveChatRequest u c s))) \<and>
   cr_status (chatRequests (snd (approveChatRequest u c s)) ! k) =
     (if c = k \<and> cr_owner r = u \<and> cr_answerCorrect r then Approved else cr_status r)"
proof -
  from f have k: "k < length (chatRequests s)" and r: "chatRequests s ! k = r"
    by (simp_all add: findById_Some)
  show ?thesis
  proof (cases "findById c (chatRequests s)")
    case None
    with k r f show ?thesis by (auto simp: approve_not_found)
  next
    case (Some r0)
    show ?thesis
    proof (cases "cr_owner r0 = u \<and> cr_answerCorrect r0")
      case False
      then have "snd (approveChatRequest u c s) = s"
        using Some by (cases "cr_owner r0 = u") (simp_all add: approve_not_owner approve_not_verified)
      moreover from False Some f have "\<not> (c = k \<and> cr_owner r = u \<and> cr_answerCorrect r)" by auto
      ultimately show ?thesis using k r by auto
    next
      case True
      obtain cid convs where
        "findOrCreateConversation (cr_requester r0) (cr_owner r0) (Some (cr_item r0)) (conversations s)
           = (cid, convs)"
        by (cases "findOrCreateConversation (cr_requester r0) (cr_owner r0) (Some (cr_item r0)) (conversations s)")
      from approve_ok [OF Some _ _ this, of u] True
      have "chatRequests (snd (approveChatRequest u c s)) =
              (chatRequests s)[c := r0\<lparr>cr_status := Approved, cr_conversation := Some cid\<rparr>]"
        by simp
      moreover from Some have "chatRequests s ! c = r0" by (simp add: findById_Some)
      ultimately show ?thesis using k r True by (cases "c = k") simp_all
    qed
  qed
qed

lemma decline_not_found:
  "findById c (chatRequests s) = None \<Longrightarrow> declineChatRequest u c s = (Inl ChatRequestNotFound, s)"
  by (simp add: declineChatRequest_def)

lemma decline_not_owner:
  "findById c (chatRequests s) = Some r \<Longrightarrow> cr_owner r \<noteq> u \<Longrightarrow>
   declineChatRequest u c s = (Inl NotAuthorized, s)"
  by (simp add: declineChatRequest_def)

lemma decline_ok:
  "findById c (chatRequests s) = Some r \<Longrightarrow> cr_owner r = u \<Longrightarrow>
   declineChatRequest u c s =
     (Inr (), createNotification (Some (cr_requester r)) ''chat_declined''
        (s\<lparr>chatRequests := (chatRequests s)[c := r\<lparr>cr_status := Declined\<rparr>]\<rparr>))"
  by (simp add: declineChatRequest_def)

lemma decline_status:
  assumes f: "findById k (chatRequests s) = Some r"
  shows "k < length (chatRequests (snd (declineChatRequest u c s))) \<and>
   cr_status (chatRequests (snd (declineChatRequest u c s)) ! k) =
     (if c = k \<and> cr_owner r = u then Declined else cr_status r)"
proof -
  from f have k: "k < length (chatRequests s)" and r: "chatRequests s ! k = r"
    by (simp_all add: findById_Some)
  show ?thesis
  proof (cases "findById c (chatRequests s)")
    case None
    with k r f show ?thesis by (auto simp: decline_not_found)
  next
    case (Some r0)
    show ?thesis
    proof (cases "cr_owner r0 = u")
      case False
      then have "snd (declineChatRequest u c s) = s"
        using Some by (simp add: decline_not_owner)
      moreover from False Some f have "\<not> (c = k \<and> cr_owner r = u)" by auto
      ultimately show ?thesis using k r by auto
    next
      case True
      from decline_ok [OF Some True]
      have "chatRequests (snd (declineChatRequest u c s)) =
              (chatRequests s)[c := r0\<lparr>cr_status := Declined\<rparr>]"
        by simp
      moreover from Some have "chatRequests s ! c = r0" by (simp add: findById_Some)
      ultimately show ?thesis using k r True by (cases "c = k") simp_all
    qed
  qed
qed

lemma submit_status:
  assumes "findById k (chatRequests s) = Some r"
  shows "k < length (chatRequests (snd (submitVerificationAnswer u i a s))) \<and>
         cr_status (chatRequests (snd (submitVerificationAnswer u i a s)) ! k) = cr_status r"
proof -
  from assms have k: "k < length (chatRequests s)" and r: "chatRequests s ! k = r"
    by (simp_all add: findById_Some)
  obtain res s' where eq: "submitVerificationAnswer u i a s = (res, s')"
    by (cases "submitVerificationAnswer u i a s")
  from submit_cases [OF eq] consider
    (err) "s' = s"
    | (new) d where "chatRequests s' = chatRequests s @ [d]"
    | (upd) cid r0 sa b where "findOne (requestQuery i u (cr_owner r0)) (chatRequests s) = Some (cid, r0)"
        "chatRequests s' = (chatRequests s)[cid := r0\<lparr>cr_submittedAnswer := sa, cr_answerCorrect := b\<rparr>]"
    by (elim conjE disjE exE) (blast, blast, metis findOne_Some requestQuery_def)
  then have "k < length (chatRequests s') \<and> cr_status (chatRequests s' ! k) = cr_status r"
  proof cases
    case err
    with k r show ?thesis by simp
  next
    case new
    with k r show ?thesis by (simp add: nth_append)
  next
    case upd
    from findOne_Some [OF upd(1)] have "chatRequests s ! cid = r0" by simp
    with k r upd(2) show ?thesis by (cases "cid = k") simp_all
  qed
  with eq show ?thesis by simp
qed

lemma other_status:
  "chatRequests (snd (sendMessage u c m s)) = chatRequests s"
  "chatRequests (snd (createConversation u x i mo s)) = chatRequests s"
  by (simp_all add: send_fields createConversation_fields)

lemma handle_status:
  assumes "findById k (chatRequests s) = Some r"
  shows "k < length (chatRequests (handle q s)) \<and>
         cr_status (chatRequests (handle q s) ! k) =
           (case q of
              Approve u c \<Rightarrow> if c = k \<and> cr_owner r = u \<and> cr_answerCorrect r then Approved else cr_status r
            | Decline u c \<Rightarrow> if c = k \<and> cr_owner r = u then Declined else cr_status r
            | _ \<Rightarrow> cr_status r)"
proof (cases q)
  case (SubmitAnswer u i a)
  with submit_status [OF assms, of u i a] show ?thesis by simp
next
  case (Approve u c)
  with approve_status [OF assms, of u c] show ?thesis by simp
next
  case (Decline u c)
  with decline_status [OF assms, of u c] show ?thesis by simp
next
  case (SendMessage u c m)
  with assms show ?thesis by (simp add: other_status findById_Some)
next
  case (CreateConversation u x i mo)
  with assms show ?thesis by (simp add: other_status findById_Some)
qed

lemma run_not_pending:
  "k < length (chatRequests s) \<Longrightarrow> cr_status (chatRequests s ! k) \<noteq> Pending \<Longrightarrow>
   k < length (chatRequests (run qs s)) \<and> cr_status (chatRequests (run qs s) ! k) \<noteq> Pending"
proof (induction qs arbitrary: s)
  case Nil
  then show ?case by simp
next
  case (Cons q qs)
  from Cons.prems have f: "findById k (chatRequests s) = Some (chatRequests s ! k)"
    by (simp add: findById_Some)
  from handle_status [OF f, of q] Cons.prems(2)
  have "k < length (chatRequests (handle q s))" "cr_status (chatRequests (handle q s) ! k) \<noteq> Pending"
    by (simp_all split: request.splits if_splits)
  from Cons.IH [OF this] show ?case by simp
qed

text \<open>
  C3 as the code has it. One request changes the status of the record at position \<open>k\<close>
  only as follows: an approve of that record by its owner, the answer being correct, makes
  it approved whatever it was; a decline of that record by its owner makes it declined
  whatever it was; everything else leaves it. So a record that has left pending never
  returns to pending, under any sequence of requests.
\<close>

theorem status_transitions:
  "findById k (chatRequests s) = Some r \<Longrightarrow>
   cr_status (chatRequests (handle q s) ! k) =
     (case q of
        Approve u c \<Rightarrow> if c = k \<and> cr_owner r = u \<and> cr_answerCorrect r then Approved else cr_status r
      | Decline u c \<Rightarrow> if c = k \<and> cr_owner r = u then Declined else cr_status r
      | _ \<Rightarrow> cr_status r) \<and>
   (cr_status r \<noteq> Pending \<longrightarrow> cr_status (chatRequests (run qs s) ! k) \<noteq> Pending)"
  using handle_status [of k s r q] run_not_pending [of k s qs]
  by (simp add: findById_Some)

theorem status_transitions_witness:
  "findById 0 (chatRequests approvedState) = Some (chatRequests approvedState ! 0) \<and>
   cr_status (chatRequests approvedState ! 0) = Approved \<and>
   cr_owner (chatRequests approvedState ! 0) = 1 \<and>
   cr_status (chatRequests (handle (Decline 1 0) approvedState) ! 0) = Declined \<and>
   cr_status (chatRequests (run [Decline 1 0, SubmitAnswer 2 0 (Some ''blue'')] approvedState) ! 0) \<noteq> Pending"
  using status_transitions [of 0 approvedState "chatRequests approvedState ! 0" "Decline 1 0"
      "[Decline 1 0, SubmitAnswer 2 0 (Some ''blue'')]"]
  by (simp add: findById_def approvedState_eq)

text \<open>
  C3 as stated fails: the owner's decline moves the approved record to declined, and the
  owner's approve moves it back to approved.
\<close>

theorem terminal_states_counterexample:
  "cr_status (chatRequests approvedState ! 0) = Approved \<and>
   cr_status (chatRequests (run [Decline 1 0] approvedState) ! 0) = Declined \<and>
   cr_status (chatRequests (run [Decline 1 0, Approve 1 0] approvedState) ! 0) = Approved"
  by (simp add: approvedState_eq handler_defs)

section \<open>Approving twice\<close>









section \<open>Exactly one record per requester and item\<close>










lemma same_key_same_record:
  assumes "ledgerInv s" "r1 \<in> set (chatRequests s)" "r2 \<in> set (chatRequests s)"
    and "requestKey r1 = requestKey r2"
  shows "r1 = r2"
proof -
  from assms(1) have "inj_on requestKey (set (chatRequests s))"
    by (simp add: ledgerInv_def distinct_map)
  with assms(2-4) show ?thesis by (auto dest: inj_onD)
qed

lemma send_open:
  assumes "findById c (conversations s) = Some conv" "u \<in> set (conv_participants conv)"
    and "populateItem conv (items s) = None \<or>
         (\<exists>i it. populateItem conv (items s) = Some (i, it) \<and>
            (item_verificationQuestion it = [] \<or> findOne (approvedQuery i u) (chatRequests s) \<noteq> None))"
  shows "fst (sendMessage u c m s) = Inr (length (messages s))"
  using assms by (auto simp: sendMessage_def Let_def)

lemma send_closed:
  assumes "findById c (conversations s) = Some conv" "u \<in> set (conv_participants conv)"
    and "populateItem conv (items s) = Some (i, it)" "item_verificationQuestion it \<noteq> []"
    and "findOne (approvedQuery i u) (chatRequests s) = None"
  shows "sendMessage u c m s = (Inl VerificationNotApproved, s)"
  using assms by (simp add: sendMessage_def)

lemma approved_query_none:
  "findOne (approvedQuery i u) xs = None \<longleftrightarrow>
     \<not> (\<exists>r \<in> set xs. cr_item r = i \<and> cr_requester r = u \<and> cr_status r = Approved)"
  unfolding findOne_None approvedQuery_def by blast

text \<open>
  C1 as the code has it. For a participant of an existing conversation, the send succeeds
  exactly when the conversation's item is absent, or has no question, or some record has
  that item, the sender as requester and status approved; otherwise it is refused by the
  gate. Neither the record's owner nor its conversation is compared. In a reachable
  database, once the owner has declined a record, the requester's send on a conversation of
  that item is refused, whatever \<open>answerCorrect\<close> says.
\<close>

theorem send_gate:
  assumes conv: "findById c (conversations s) = Some conv" and part: "u \<in> set (conv_participants conv)"
  shows "fst (sendMessage u c m s) =
           (if (case populateItem conv (items s) of
                  None \<Rightarrow> True
                | Some (i, it) \<Rightarrow>
                    item_verificationQuestion it = [] \<or>
                    (\<exists>r \<in> set (chatRequests s).
                       cr_item r = i \<and> cr_requester r = u \<and> cr_status r = Approved))
            then Inr (length (messages s)) else Inl VerificationNotApproved) \<and>
         (s = run qs (initial its) \<and> findById k (chatRequests s) = Some r \<and>
          conv_item conv = Some (cr_item r) \<and> cr_requester r = u \<longrightarrow>
            sendMessage u c m (snd (declineChatRequest (cr_owner r) k s)) =
              (Inl VerificationNotApproved, snd (declineChatRequest (cr_owner r) k s)))"
proof
  show "fst (sendMessage u c m s) =
           (if (case populateItem conv (items s) of
                  None \<Rightarrow> True
                | Some (i, it) \<Rightarrow>
                    item_verificationQuestion it = [] \<or>
                    (\<exists>r \<in> set (chatRequests s).
                       cr_item r = i \<and> cr_requester r = u \<and> cr_status r = Approved))
            then Inr (length (messages s)) else Inl VerificationNotApproved)"
  proof (cases "populateItem conv (items s)")
    case None
    with send_open [OF conv part, of m] show ?thesis by simp
  next
    case (Some p)
    obtain i it where p: "p = (i, it)" by (cases p)
    from Some p have pop: "populateItem conv (items s) = Some (i, it)" by simp
    show ?thesis
    proof (cases "item_verificationQuestion it = []")
      case True
      with pop have "fst (sendMessage u c m s) = Inr (length (messages s))"
        by (intro send_open [OF conv part]) blast
      with True pop show ?thesis by simp
    next
      case question: False
      show ?thesis
      proof (cases "findOne (approvedQuery i u) (chatRequests s)")
        case None
        with question pop have "sendMessage u c m s = (Inl VerificationNotApproved, s)"
          by (intro send_closed [OF conv part])
        moreover from None
        have "\<not> (\<exists>r \<in> set (chatRequests s). cr_item r = i \<and> cr_requester r = u \<and> cr_status r = Approved)"
          using approved_query_none [of i u "chatRequests s"] by auto
        ultimately show ?thesis using question pop by simp
      next
        case (Some kr)
        then have found: "findOne (approvedQuery i u) (chatRequests s) \<noteq> None" by simp
        with pop have "fst (sendMessage u c m s) = Inr (length (messages s))"
          by (intro send_open [OF conv part]) blast
        moreover from found
        have "\<exists>r \<in> set (chatRequests s). cr_item r = i \<and> cr_requester r = u \<and> cr_status r = Approved"
          using approved_query_none [of i u "chatRequests s"] by auto
        ultimately show ?thesis using pop by simp
      qed
    qed
  qed
next
  show "s = run qs (initial its) \<and> findById k (chatRequests s) = Some r \<and>
          conv_item conv = Some (cr_item r) \<and> cr_requester r = u \<longrightarrow>
            sendMessage u c m (snd (declineChatRequest (cr_owner r) k s)) =
              (Inl VerificationNotApproved, snd (declineChatRequest (cr_owner r) k s))"
  proof (intro impI, elim conjE)
    assume s: "s = run qs (initial its)" and rec: "findById k (chatRequests s) = Some r"
      and item: "conv_item conv = Some (cr_item r)" and u: "cr_requester r = u"
    let ?s' = "snd (declineChatRequest (cr_owner r) k s)"
    let ?rd = "r\<lparr>cr_status := Declined\<rparr>"
    have inv: "ledgerInv s" by (simp add: s ledgerInv_reachable)
    from rec have k: "k < length (chatRequests s)" and rk: "chatRequests s ! k = r"
      by (simp_all add: findById_Some)
    from decline_ok [OF rec refl] have
      crs: "chatRequests ?s' = (chatRequests s)[k := ?rd]" and
      convs: "conversations ?s' = conversations s" and items: "items ?s' = items s"
      by simp_all
    have inv': "ledgerInv ?s'" using inv by (rule ledgerInv_decline)
    from ledgerInv_nth [OF inv k] rk obtain it where
      it: "findById (cr_item r) (items s) = Some it" "item_verificationQuestion it \<noteq> []"
      by (auto simp: requestInv_def split: option.splits)
    have pop: "populateItem conv (items ?s') = Some (cr_item r, it)"
      by (simp add: populateItem_def item items it)
    have rd: "?rd \<in> set (chatRequests ?s')"
      unfolding crs using k by (rule set_update_memI)
    have "findOne (approvedQuery (cr_item r) u) (chatRequests ?s') = None"
      unfolding findOne_None
    proof
      fix r' assume r': "r' \<in> set (chatRequests ?s')"
      show "\<not> approvedQuery (cr_item r) u r'"
      proof
        assume q: "approvedQuery (cr_item r) u r'"
        then have "requestKey r' = requestKey ?rd"
          by (simp add: approvedQuery_def requestKey_def u)
        with inv' r' rd have "r' = ?rd" by (rule same_key_same_record)
        with q show False by (simp add: approvedQuery_def)
      qed
    qed
    with conv part pop it(2) show "sendMessage u c m ?s' = (Inl VerificationNotApproved, ?s')"
      by (intro send_closed [where conv = conv and i = "cr_item r" and it = it]) (simp_all add: convs)
  qed
qed

lemma crossChannelState_eq:
  "crossChannelState =
     \<lparr>items = [blueItem],
      chatRequests =
        [\<lparr>cr_item = 0, cr_requester = 2, cr_owner = 1, cr_verificationQuestion = ''What color?'',
          cr_correctAnswer = ''blue'', cr_submittedAnswer = Some ''blue'', cr_answerCorrect = True,
          cr_status = Approved, cr_conversation = Some 0\<rparr>],
      conversations = [\<lparr>conv_participants = [2, 1], conv_item = Some 0, conv_lastMessage = None\<rparr>,
                       \<lparr>conv_participants = [3, 2], conv_item = Some 0, conv_lastMessage = None\<rparr>],
      messages = [],
      notifications = [\<lparr>n_user = Some 1, n_type = ''chat_request''\<rparr>,
                       \<lparr>n_user = Some 2, n_type = ''chat_approved''\<rparr>]\<rparr>"
  by (simp add: crossChannelState_def approvedState_eq handler_defs)

text \<open>
  C1 as stated fails: user 2, approved on item 0 with conversation 0, sends on conversation 1
  (with user 3, on the same item); the send is authorized and no record carries
  conversation 1.
\<close>

theorem send_gate_counterexample:
  "findById 1 (conversations crossChannelState) =
     Some \<lparr>conv_participants = [3, 2], conv_item = Some 0, conv_lastMessage = None\<rparr> \<and>
   item_verificationQuestion (items crossChannelState ! 0) = ''What color?'' \<and>
   map cr_conversation (chatRequests crossChannelState) = [Some 0] \<and>
   fst (sendMessage 2 1 ''hello'' crossChannelState) = Inr 0"
  by (simp add: crossChannelState_eq handler_defs blueItem_def)

theorem send_gate_witness:
  "findById 0 (conversations approvedState) = Some (conversations approvedState ! 0) \<and>
   2 \<in> set (conv_participants (conversations approvedState ! 0)) \<and>
   approvedState = run [SubmitAnswer 2 0 (Some ''BLUE ''), Approve 1 0] (initial [blueItem]) \<and>
   findById 0 (chatRequests approvedState) = Some (chatRequests approvedState ! 0) \<and>
   conv_item (conversations approvedState ! 0) = Some (cr_item (chatRequests approvedState ! 0)) \<and>
   cr_requester (chatRequests approvedState ! 0) = 2 \<and>
   cr_answerCorrect (chatRequests approvedState ! 0) \<and>
   fst (sendMessage 2 0 ''hello'' approvedState) = Inr 0 \<and>
   sendMessage 2 0 ''hello'' (snd (declineChatRequest 1 0 approvedState)) =
     (Inl VerificationNotApproved, snd (declineChatRequest 1 0 approvedState))"
proof -
  have h1: "findById 0 (conversations approvedState) = Some (conversations approvedState ! 0)"
    by (simp add: approvedState_eq findById_def)
  have h2: "2 \<in> set (conv_participants (conversations approvedState ! 0))"
    by (simp add: approvedState_eq)
  have h3: "approvedState = run [SubmitAnswer 2 0 (Some ''BLUE ''), Approve 1 0] (initial [blueItem])"
    by (simp only: approvedState_def)
  have h4: "findById 0 (chatRequests approvedState) = Some (chatRequests approvedState ! 0)"
    by (simp add: approvedState_eq findById_def)
  have h5: "conv_item (conversations approvedState ! 0) = Some (cr_item (chatRequests approvedState ! 0))"
    by (simp add: approvedState_eq)
  have h6: "cr_requester (chatRequests approvedState ! 0) = 2"
    by (simp add: approvedState_eq)
  have h7: "cr_answerCorrect (chatRequests approvedState ! 0)"
    by (simp add: approvedState_eq)
  have owner: "cr_owner (chatRequests approvedState ! 0) = 1"
    by (simp add: approvedState_eq)
  note inst = send_gate [OF h1 h2, of "''hello''"
      "[SubmitAnswer 2 0 (Some ''BLUE ''), Approve 1 0]" "[blueItem]" 0 "chatRequests approvedState ! 0"]
  from inst have "fst (sendMessage 2 0 ''hello'' approvedState) = Inr 0"
    by (simp add: approvedState_eq populateItem_def findById_def blueItem_def)
  moreover from inst h3 h4 h5 h6
  have "sendMessage 2 0 ''hello'' (snd (declineChatRequest (cr_owner (chatRequests approvedState ! 0)) 0 approvedState)) =
     (Inl VerificationNotApproved, snd (declineChatRequest (cr_owner (chatRequests approvedState ! 0)) 0 approvedState))"
    by blast
  then have "sendMessage 2 0 ''hello'' (snd (declineChatRequest 1 0 approvedState)) =
     (Inl VerificationNotApproved, snd (declineChatRequest 1 0 approvedState))"
    by (simp only: owner)
  ultimately show ?thesis using h1 h2 h3 h4 h5 h6 h7 by (intro conjI)
qed

end
